theory Spec2Isabelle
  imports Main "HOL-Library.Word"
begin

unbundle bit_operations_syntax

section \<open>JavaScript values as the flashcard server sees them\<close>

text \<open>
  The server (\<^verbatim>\<open>server.js\<close>) receives JSON request bodies, keeps its collection as a JSON
  array of objects in one file and works on these values with the untyped operators of
  JavaScript. The embedding therefore starts with the JSON fragment of the value domain.

  \<^item> A string is a sequence of UTF-16 code units.
  \<^item> A number is an IEEE-754 binary64 value, kept as its 64-bit pattern. The program does no
    arithmetic; it only tests numbers for truthiness and converts them.
  \<^item> An object is its list of own properties in insertion order; a property is looked up
    with \<open>map_of\<close>.
\<close>

type_synonym jsstring = "16 word list"
type_synonym jsnum = "64 word"

definition lit :: "string \<Rightarrow> jsstring" where
  "lit s = map of_char s"

datatype jsval =
    JUndefined
  | JNull
  | JBool bool
  | JNum jsnum
  | JStr jsstring
  | JArr "jsval list"
  | JObj "(jsstring \<times> jsval) list"

type_synonym jsobj = "(jsstring \<times> jsval) list"

datatype jserror = TypeError | IOError

text \<open>Errors are values: \<open>Inl e\<close> is a thrown exception, \<open>Inr v\<close> a normal return.\<close>

definition bindE :: "'e + 'a \<Rightarrow> ('a \<Rightarrow> 'e + 'b) \<Rightarrow> 'e + 'b" where
  "bindE m f = (case m of Inl e \<Rightarrow> Inl e | Inr x \<Rightarrow> f x)"

fun mapE :: "('a \<Rightarrow> 'e + 'b) \<Rightarrow> 'a list \<Rightarrow> 'e + 'b list" where
  "mapE f [] = Inr []"
| "mapE f (x # xs) = bindE (f x) (\<lambda>y. bindE (mapE f xs) (\<lambda>ys. Inr (y # ys)))"

subsection \<open>Numbers\<close>

definition num_NaN :: jsnum where "num_NaN = 0x7FF8000000000000"
definition num_0 :: jsnum where "num_0 = 0"
definition num_1 :: jsnum where "num_1 = 0x3FF0000000000000"
definition num_2_5 :: jsnum where "num_2_5 = 0x4004000000000000"

definition isNaN :: "jsnum \<Rightarrow> bool" where
  "isNaN w = (w AND 0x7FF0000000000000 = 0x7FF0000000000000 \<and> w AND 0x000FFFFFFFFFFFFF \<noteq> 0)"

definition isZero :: "jsnum \<Rightarrow> bool" where
  "isZero w = (w AND 0x7FFFFFFFFFFFFFFF = 0)"

text \<open>
  What the engine and the platform provide and the file only calls: the decimal rendering of a
  number, the parsing of a numeric string, and the JSON codec of the store file. A store
  file either fails to parse (\<open>None\<close>: \<^verbatim>\<open>JSON.parse\<close> throws, and \<open>safeRead\<close> catches it on
  the spot) or holds an array of objects; the server itself never writes anything else.
\<close>

record runtime =
  NumberToString :: "jsnum \<Rightarrow> jsstring"
  StringToNumber :: "jsstring \<Rightarrow> jsnum"
  JSON_parse :: "jsstring \<Rightarrow> jsobj list option"
  JSON_stringify :: "jsobj list \<Rightarrow> jsstring"

subsection \<open>Truthiness, \<open>||\<close> and \<open>??\<close>\<close>

fun truthy :: "jsval \<Rightarrow> bool" where
  "truthy JUndefined = False"
| "truthy JNull = False"
| "truthy (JBool b) = b"
| "truthy (JNum n) = (\<not> isZero n \<and> \<not> isNaN n)"
| "truthy (JStr s) = (s \<noteq> [])"
| "truthy (JArr xs) = True"
| "truthy (JObj ps) = True"

definition or_else :: "jsval \<Rightarrow> jsval \<Rightarrow> jsval" where
  "or_else a b = (if truthy a then a else b)"

fun nullish :: "jsval \<Rightarrow> bool" where
  "nullish JUndefined = True"
| "nullish JNull = True"
| "nullish v = False"

definition coalesce :: "jsval \<Rightarrow> jsval \<Rightarrow> jsval" where
  "coalesce a b = (if nullish a then b else a)"

subsection \<open>Property access and object spread\<close>

text \<open>
  \<open>getProp v k\<close> is \<^verbatim>\<open>v.k\<close> for a base \<open>v\<close> that is neither null nor undefined (on those the
  access throws, which the callers test first) and for the property names this program
  reads (\<^verbatim>\<open>id\<close>, \<^verbatim>\<open>front\<close>, \<^verbatim>\<open>back\<close>, ...): none of them is inherited from a prototype, so
  anything but an own property of an object is \<^verbatim>\<open>undefined\<close>.
\<close>

fun getProp :: "jsval \<Rightarrow> jsstring \<Rightarrow> jsval" where
  "getProp (JObj ps) k = (case map_of ps k of Some v \<Rightarrow> v | None \<Rightarrow> JUndefined)"
| "getProp v k = JUndefined"

text \<open>
  \<^verbatim>\<open>{ ...a, ...b }\<close>: the properties of \<open>a\<close> keep their places and take the value \<open>b\<close> gives
  them, if any; the properties only \<open>b\<close> has follow in the order of \<open>b\<close>. (The engine lists
  integer-like names first; the order of properties matters to no statement below but the
  equality of two cards built by the same object literal.)
\<close>

definition spread :: "jsobj \<Rightarrow> jsobj \<Rightarrow> jsobj" where
  "spread a b =
     map (\<lambda>(k, v). (k, case map_of b k of Some w \<Rightarrow> w | None \<Rightarrow> v)) a
     @ filter (\<lambda>(k, v). map_of a k = None) b"

text \<open>Assignment \<^verbatim>\<open>o.k = v\<close>: in place when the property exists, appended otherwise.\<close>

fun setProp :: "jsstring \<Rightarrow> jsval \<Rightarrow> jsobj \<Rightarrow> jsobj" where
  "setProp k v [] = [(k, v)]"
| "setProp k v ((k', v') # ps) = (if k' = k then (k, v) # ps else (k', v') # setProp k v ps)"

fun decimal :: "nat \<Rightarrow> jsstring" where
  "decimal n = (if n < 10 then [of_nat (48 + n)] else decimal (n div 10) @ [of_nat (48 + n mod 10)])"

text \<open>
  The own enumerable properties a spread copies: those of an object, the indexed elements of
  an array, the indexed code units of a string, nothing for the other primitives.
\<close>

fun ownProps :: "jsval \<Rightarrow> jsobj" where
  "ownProps (JObj ps) = ps"
| "ownProps (JArr xs) = zip (map decimal [0..<length xs]) xs"
| "ownProps (JStr s) = zip (map decimal [0..<length s]) (map (\<lambda>c. JStr [c]) s)"
| "ownProps v = []"

subsection \<open>Conversion to string and to number\<close>

text \<open>
  \<^verbatim>\<open>String(v)\<close>. A plain object converts to \<^verbatim>\<open>[object Object]\<close> through the inherited
  \<^verbatim>\<open>toString\<close>; an own property of that name, which parsed JSON can only bind to a
  non-callable value, leaves the conversion without a primitive and it throws a TypeError.
  An array converts by joining its elements with a comma, null and undefined elements
  giving the empty string.
\<close>

fun throwsToString :: "jsval \<Rightarrow> bool" where
  "throwsToString (JObj ps) = (map_of ps (lit ''toString'') \<noteq> None)"
| "throwsToString (JArr xs) = (\<exists>x \<in> set xs. throwsToString x)"
| "throwsToString v = False"

fun Array_join :: "jsstring list \<Rightarrow> jsstring \<Rightarrow> jsstring" where
  "Array_join [] sep = []"
| "Array_join [x] sep = x"
| "Array_join (x # y # ys) sep = x @ sep @ Array_join (y # ys) sep"

fun toStr :: "(jsnum \<Rightarrow> jsstring) \<Rightarrow> jsval \<Rightarrow> jsstring" where
  "toStr n2s JUndefined = lit ''undefined''"
| "toStr n2s JNull = lit ''null''"
| "toStr n2s (JBool b) = (if b then lit ''true'' else lit ''false'')"
| "toStr n2s (JNum n) = n2s n"
| "toStr n2s (JStr s) = s"
| "toStr n2s (JArr xs) =
     Array_join (map (\<lambda>x. if nullish x then [] else toStr n2s x) xs) (lit '','')"
| "toStr n2s (JObj ps) = lit ''[object Object]''"

definition js_String :: "runtime \<Rightarrow> jsval \<Rightarrow> jserror + jsstring" where
  "js_String rt v =
     (if throwsToString v then Inl TypeError else Inr (toStr (NumberToString rt) v))"

text \<open>\<^verbatim>\<open>Number(v)\<close>: an array or object is first converted to its string.\<close>

fun js_Number :: "runtime \<Rightarrow> jsval \<Rightarrow> jserror + jsnum" where
  "js_Number rt JUndefined = Inr num_NaN"
| "js_Number rt JNull = Inr num_0"
| "js_Number rt (JBool b) = Inr (if b then num_1 else num_0)"
| "js_Number rt (JNum n) = Inr n"
| "js_Number rt (JStr s) = Inr (StringToNumber rt s)"
| "js_Number rt v = bindE (js_String rt v) (\<lambda>s. Inr (StringToNumber rt s))"

subsection \<open>Text normalisation\<close>

text \<open>
  The white space of \<^verbatim>\<open>\s\<close> and of \<^verbatim>\<open>trim()\<close>: the WhiteSpace and LineTerminator code
  points of ECMAScript.
\<close>

definition isWhiteSpace :: "16 word \<Rightarrow> bool" where
  "isWhiteSpace c =
     (c \<in> {0x09, 0x0A, 0x0B, 0x0C, 0x0D, 0x20, 0xA0, 0x1680, 0x2028, 0x2029, 0x202F,
           0x205F, 0x3000, 0xFEFF}
      \<or> (0x2000 \<le> c \<and> c \<le> 0x200A))"

definition isEq :: "16 word \<Rightarrow> bool" where
  "isEq c = (c = 0x3D)"

text \<open>\<^verbatim>\<open>s.replace(/^=+\s*/, "")\<close>: the pattern matches only at the start, and only an \<^verbatim>\<open>=\<close>.\<close>

definition stripLeadingEq :: "jsstring \<Rightarrow> jsstring" where
  "stripLeadingEq s =
     (case s of
        [] \<Rightarrow> []
      | c # cs \<Rightarrow> if isEq c then dropWhile isWhiteSpace (dropWhile isEq s) else s)"

definition trim :: "jsstring \<Rightarrow> jsstring" where
  "trim s = rev (dropWhile isWhiteSpace (rev (dropWhile isWhiteSpace s)))"

section \<open>The record model: \<^verbatim>\<open>sanitizeCard\<close>\<close>

text \<open>
  \<open>now\<close> is the value of \<^verbatim>\<open>new Date().toISOString()\<close> in this call and \<open>fresh\<close> the identifier
  \<^verbatim>\<open>nanoid()\<close> would return in it. The result is \<open>Inl TypeError\<close> when the call throws,
  \<open>Inr None\<close> when it returns null and \<open>Inr (Some card)\<close> otherwise.
\<close>

definition backText :: "runtime \<Rightarrow> jsval \<Rightarrow> jserror + jsstring" where
  "backText rt b =
     (case b of
        JArr vs \<Rightarrow> bindE (mapE (js_String rt) vs) (\<lambda>ss. Inr (Array_join ss (lit '' / '')))
      | _ \<Rightarrow> bindE (js_String rt b) (\<lambda>s. Inr (trim (stripLeadingEq s))))"

definition cardFields ::
  "jsval \<Rightarrow> jsstring \<Rightarrow> jsstring \<Rightarrow> jsstring \<Rightarrow> jsstring \<Rightarrow> jsnum \<Rightarrow> jsnum \<Rightarrow> jsnum \<Rightarrow> jsobj" where
  "cardFields c now fresh front back ease interval lapses =
     [(lit ''id'', or_else (getProp c (lit ''id'')) (JStr fresh)),
      (lit ''front'', JStr front),
      (lit ''back'', JStr back),
      (lit ''lang_from'', or_else (getProp c (lit ''lang_from'')) (JStr (lit ''pt''))),
      (lit ''lang_to'', or_else (getProp c (lit ''lang_to'')) (JStr (lit ''de''))),
      (lit ''tags'', (case getProp c (lit ''tags'') of JArr ts \<Rightarrow> JArr (take 10 ts) | _ \<Rightarrow> JArr [])),
      (lit ''ease'', JNum ease),
      (lit ''interval'', JNum interval),
      (lit ''next_review'', or_else (getProp c (lit ''next_review'')) (JStr now)),
      (lit ''lapses'', JNum lapses),
      (lit ''created_at'', or_else (getProp c (lit ''created_at'')) (JStr now))]"

definition frontIn :: "jsval \<Rightarrow> jsval" where
  "frontIn c = coalesce (coalesce (getProp c (lit ''front'')) (getProp c (lit ''portuguese''))) (JStr [])"

definition backIn :: "jsval \<Rightarrow> jsval" where
  "backIn c = coalesce (coalesce (getProp c (lit ''back'')) (getProp c (lit ''translation''))) (JStr [])"

definition sanitizeCard :: "runtime \<Rightarrow> jsstring \<Rightarrow> jsstring \<Rightarrow> jsval \<Rightarrow> jserror + jsobj option" where
  "sanitizeCard rt now fresh c =
     (if nullish c then Inl TypeError
      else
        bindE (js_String rt (frontIn c)) (\<lambda>s.
        bindE (backText rt (backIn c)) (\<lambda>back.
        if trim (stripLeadingEq s) = [] \<or> back = [] then Inr None
        else
          bindE (js_Number rt (coalesce (getProp c (lit ''ease'')) (JNum num_2_5))) (\<lambda>ease.
          bindE (js_Number rt (coalesce (getProp c (lit ''interval'')) (JNum num_0))) (\<lambda>interval.
          bindE (js_Number rt (coalesce (getProp c (lit ''lapses'')) (JNum num_0))) (\<lambda>lapses.
          Inr (Some (cardFields c now fresh (trim (stripLeadingEq s)) back ease interval lapses))))))))"

section \<open>The store file\<close>

text \<open>
  The part of the world the server acts on: the content of \<^verbatim>\<open>data/cards.json\<close> (\<open>None\<close>
  when it cannot be read), whether the data directory can be written (a write to a full or
  read-only disk rejects with an I/O error), and what has been printed with
  \<^verbatim>\<open>console.error\<close>. The temporary file of \<^verbatim>\<open>safeWrite\<close> has a name of its own and is gone
  after the rename, so it is not part of the state.
\<close>

datatype logline = Read_cards_parse_failed | Write_failed jserror

record world =
  w_file :: "jsstring option"
  w_writable :: bool
  w_log :: "logline list"

definition writeFile :: "jsstring \<Rightarrow> world \<Rightarrow> world \<times> (jserror + unit)" where
  "writeFile txt w =
     (if w_writable w then (w\<lparr>w_file := Some txt\<rparr>, Inr ()) else (w, Inl IOError))"

definition safeRead :: "runtime \<Rightarrow> world \<Rightarrow> world \<times> (jserror + jsobj list)" where
  "safeRead rt w =
     (case (case w_file w of None \<Rightarrow> None | Some txt \<Rightarrow> JSON_parse rt txt) of
        Some cards \<Rightarrow> (w, Inr cards)
      | None \<Rightarrow>
          (case writeFile (lit ''[]\<newline>'') (w\<lparr>w_log := w_log w @ [Read_cards_parse_failed]\<rparr>) of
             (w', Inl e) \<Rightarrow> (w', Inl e)
           | (w', Inr u) \<Rightarrow> (w', Inr [])))"

definition safeWrite :: "runtime \<Rightarrow> jsobj list \<Rightarrow> world \<Rightarrow> world \<times> (jserror + unit)" where
  "safeWrite rt cards w = writeFile (JSON_stringify rt cards) w"

section \<open>The write serializer\<close>

text \<open>
  One unit of the chain, run when its turn has come: load, apply the mutator, save; whatever
  it throws is caught and logged. The mutators of the three routes also set a flag of their
  handler (\<^verbatim>\<open>updated\<close>, \<^verbatim>\<open>removed\<close>), so a mutator returns the next collection and the flag;
  the unit returns \<open>None\<close> for the flag when the mutator never ran. The order in which the
  promise chain runs several pending units is the engine's and is not modelled: a handler is
  run here with no other unit pending.
\<close>

definition enqueueWrite ::
  "runtime \<Rightarrow> (jsobj list \<Rightarrow> jsobj list \<times> 'a) \<Rightarrow> world \<Rightarrow> world \<times> 'a option" where
  "enqueueWrite rt mutator w =
     (case safeRead rt w of
        (w1, Inl e) \<Rightarrow> (w1\<lparr>w_log := w_log w1 @ [Write_failed e]\<rparr>, None)
      | (w1, Inr current) \<Rightarrow>
          (case mutator current of
             (next, flag) \<Rightarrow>
               (case safeWrite rt next w1 of
                  (w2, Inl e) \<Rightarrow> (w2\<lparr>w_log := w_log w2 @ [Write_failed e]\<rparr>, Some flag)
                | (w2, Inr u) \<Rightarrow> (w2, Some flag))))"

section \<open>Authorization\<close>

text \<open>\<^verbatim>\<open>process.env.WRITE_TOKEN || ""\<close>: an unset variable reads as undefined.\<close>

definition WRITE_TOKEN :: "jsstring option \<Rightarrow> jsstring" where
  "WRITE_TOKEN env = (case env of None \<Rightarrow> [] | Some s \<Rightarrow> if s \<noteq> [] then s else [])"

text \<open>
  \<open>requireToken\<close> returns \<open>None\<close> where the source sends the 401 response and returns null,
  and the token otherwise. The argument is the Authorization header, \<open>None\<close> when the
  request has none.
\<close>

definition requireToken :: "jsstring \<Rightarrow> jsstring option \<Rightarrow> jsstring option" where
  "requireToken write_token header =
     (let auth = (case header of None \<Rightarrow> [] | Some h \<Rightarrow> if h \<noteq> [] then h else []);
          token = (if take 7 auth = lit ''Bearer '' then drop 7 auth else [])
      in if write_token = [] \<or> token \<noteq> write_token then None else Some token)"

section \<open>The mutators of the three routes\<close>

subsection \<open>A \<^verbatim>\<open>Map\<close> from card ids to indices\<close>

text \<open>
  \<^verbatim>\<open>Map\<close> compares keys with SameValueZero. Two objects or arrays are the same key only when
  they are one object; the ids compared here come out of different JSON documents (the store
  file and a request body), so they never are.
\<close>

fun sameValueZero :: "jsval \<Rightarrow> jsval \<Rightarrow> bool" where
  "sameValueZero JUndefined JUndefined = True"
| "sameValueZero JNull JNull = True"
| "sameValueZero (JBool a) (JBool b) = (a = b)"
| "sameValueZero (JNum a) (JNum b) = (a = b \<or> (isNaN a \<and> isNaN b) \<or> (isZero a \<and> isZero b))"
| "sameValueZero (JStr a) (JStr b) = (a = b)"
| "sameValueZero a b = False"

fun Map_set :: "jsval \<Rightarrow> nat \<Rightarrow> (jsval \<times> nat) list \<Rightarrow> (jsval \<times> nat) list" where
  "Map_set k v [] = [(k, v)]"
| "Map_set k v ((k', v') # m) =
     (if sameValueZero k' k then (k', v) # m else (k', v') # Map_set k v m)"

definition new_Map :: "(jsval \<times> nat) list \<Rightarrow> (jsval \<times> nat) list" where
  "new_Map entries = fold (\<lambda>(k, v) m. Map_set k v m) entries []"

fun Map_get :: "(jsval \<times> nat) list \<Rightarrow> jsval \<Rightarrow> nat option" where
  "Map_get [] k = None"
| "Map_get ((k', v') # m) k = (if sameValueZero k' k then Some v' else Map_get m k)"

subsection \<open>POST: upsert\<close>

text \<open>
  The index is built once, from the collection as loaded; the loop then replaces at the
  indexed place or pushes. An index of the map is below the length of the loaded collection,
  and the collection only grows, so the indexed card exists.
\<close>

text \<open>\<open>sameId c n\<close>: the index built from a collection holding \<open>c\<close> has the id of \<open>n\<close>.\<close>

definition sameId :: "jsobj \<Rightarrow> jsobj \<Rightarrow> bool" where
  "sameId c n = sameValueZero (getProp (JObj c) (lit ''id'')) (getProp (JObj n) (lit ''id''))"

definition upsertStep :: "(jsval \<times> nat) list \<Rightarrow> jsobj \<Rightarrow> jsobj list \<Rightarrow> jsobj list" where
  "upsertStep idx n cards =
     (case Map_get idx (getProp (JObj n) (lit ''id'')) of
        Some i \<Rightarrow> cards[i := spread (cards ! i) n]
      | None \<Rightarrow> cards @ [n])"

definition cardIndex :: "jsobj list \<Rightarrow> (jsval \<times> nat) list" where
  "cardIndex cards =
     new_Map (zip (map (\<lambda>x. getProp (JObj x) (lit ''id'')) cards) [0..<length cards])"

definition upsertMutator :: "jsobj list \<Rightarrow> jsobj list \<Rightarrow> jsobj list \<times> unit" where
  "upsertMutator sanitized cards =
     (let idx = cardIndex cards
      in (fold (upsertStep idx) sanitized cards, ()))"

subsection \<open>PUT: patch by id\<close>

fun findIndex :: "('a \<Rightarrow> bool) \<Rightarrow> 'a list \<Rightarrow> nat option" where
  "findIndex P [] = None"
| "findIndex P (x # xs) = (if P x then Some 0 else map_option Suc (findIndex P xs))"

text \<open>
  \<^verbatim>\<open>c.id === id\<close> with \<open>id\<close> a string (the route parameter): true exactly when the card's id
  is that string.
\<close>

definition hasId :: "jsstring \<Rightarrow> jsobj \<Rightarrow> bool" where
  "hasId cid c = (getProp (JObj c) (lit ''id'') = JStr cid)"

text \<open>The merge of the mutator, \<^verbatim>\<open>{ ...cards[i], ...patch }\<close>.\<close>

definition mergePatch :: "jsobj \<Rightarrow> jsval \<Rightarrow> jsobj" where
  "mergePatch existing patch = spread existing (ownProps patch)"

definition patchMutator :: "jsstring \<Rightarrow> jsval \<Rightarrow> jsobj list \<Rightarrow> jsobj list \<times> bool" where
  "patchMutator cid patch cards =
     (case findIndex (hasId cid) cards of
        None \<Rightarrow> (cards, False)
      | Some i \<Rightarrow> (cards[i := mergePatch (cards ! i) patch], True))"

text \<open>
  The handler's preparation of the patch: \<^verbatim>\<open>req.body || {}\<close>, then \<^verbatim>\<open>front\<close> and \<^verbatim>\<open>back\<close>
  normalised in place when they are present. Only an object can have them.
\<close>

definition preparePatch :: "runtime \<Rightarrow> jsval \<Rightarrow> jserror + jsval" where
  "preparePatch rt body =
     (case or_else body (JObj []) of
        JObj ps \<Rightarrow>
          bindE (if getProp (JObj ps) (lit ''front'') \<noteq> JUndefined
                 then bindE (js_String rt (getProp (JObj ps) (lit ''front'')))
                        (\<lambda>s. Inr (setProp (lit ''front'') (JStr (trim (stripLeadingEq s))) ps))
                 else Inr ps) (\<lambda>ps1.
          bindE (if getProp (JObj ps1) (lit ''back'') \<noteq> JUndefined
                 then bindE (backText rt (getProp (JObj ps1) (lit ''back'')))
                        (\<lambda>s. Inr (setProp (lit ''back'') (JStr s) ps1))
                 else Inr ps1) (\<lambda>ps2.
          Inr (JObj ps2)))
      | v \<Rightarrow> Inr v)"

subsection \<open>DELETE: remove by id\<close>

definition deleteMutator :: "jsstring \<Rightarrow> jsobj list \<Rightarrow> jsobj list \<times> bool" where
  "deleteMutator cid cards =
     (let next = filter (\<lambda>c. \<not> hasId cid c) cards
      in (next, length next \<noteq> length cards))"

section \<open>The routes\<close>

text \<open>
  A request carries its Authorization header, its \<^verbatim>\<open>:id\<close> parameter and its parsed body. The
  response is what the handler sends; \<open>Rejected e\<close> is a handler whose promise rejects before
  it has sent anything, and \<open>NoResponse\<close> a handler that returns without sending.
\<close>

record request =
  req_auth :: "jsstring option"
  req_id :: jsstring
  req_body :: jsval

datatype response =
    Unauthorized
  | Invalid_payload
  | Not_found
  | Ok_id jsstring
  | Ok_added nat nat
  | Card_list "jsobj list" nat
  | Rejected jserror
  | NoResponse

text \<open>The guard every mutating route starts with: \<^verbatim>\<open>if (!requireToken(req, res)) return;\<close>\<close>

definition guarded ::
  "jsstring \<Rightarrow> request \<Rightarrow> world \<Rightarrow> (world \<Rightarrow> world \<times> response) \<Rightarrow> world \<times> response" where
  "guarded write_token req w handler =
     (case requireToken write_token (req_auth req) of
        None \<Rightarrow> (w, Unauthorized)
      | Some token \<Rightarrow> if token = [] then (w, NoResponse) else handler w)"


text \<open>
  \<open>clock i\<close> and \<open>ids i\<close> are the time and the fresh identifier of the call of
  \<^verbatim>\<open>sanitizeCard\<close> on the \<open>i\<close>-th incoming item.
\<close>

definition sanitizeAll ::
  "runtime \<Rightarrow> (nat \<Rightarrow> jsstring) \<Rightarrow> (nat \<Rightarrow> jsstring) \<Rightarrow> jsval list \<Rightarrow> jserror + jsobj list" where
  "sanitizeAll rt clock ids incoming =
     bindE (mapE (\<lambda>(i, c). sanitizeCard rt (clock i) (ids i) c)
              (zip [0..<length incoming] incoming))
       (\<lambda>rs. Inr (concat (map (\<lambda>r. case r of None \<Rightarrow> [] | Some n \<Rightarrow> [n]) rs)))"

definition postCards ::
  "runtime \<Rightarrow> jsstring \<Rightarrow> (nat \<Rightarrow> jsstring) \<Rightarrow> (nat \<Rightarrow> jsstring) \<Rightarrow> request \<Rightarrow> world
     \<Rightarrow> world \<times> response" where
  "postCards rt write_token clock ids req w =
     guarded write_token req w (\<lambda>w.
       case sanitizeAll rt clock ids
              (case req_body req of JArr xs \<Rightarrow> xs | b \<Rightarrow> [b]) of
         Inl e \<Rightarrow> (w, Rejected e)
       | Inr sanitized \<Rightarrow>
           if sanitized = [] then (w, Invalid_payload)
           else
             (case enqueueWrite rt (upsertMutator sanitized) w of
                (w1, u) \<Rightarrow>
                  (case safeRead rt w1 of
                     (w2, Inl e) \<Rightarrow> (w2, Rejected e)
                   | (w2, Inr after) \<Rightarrow> (w2, Ok_added (length sanitized) (length after)))))"

definition putCard :: "runtime \<Rightarrow> jsstring \<Rightarrow> request \<Rightarrow> world \<Rightarrow> world \<times> response" where
  "putCard rt write_token req w =
     guarded write_token req w (\<lambda>w.
       case preparePatch rt (req_body req) of
         Inl e \<Rightarrow> (w, Rejected e)
       | Inr patch \<Rightarrow>
           (case enqueueWrite rt (patchMutator (req_id req) patch) w of
              (w1, updated) \<Rightarrow>
                (w1, if updated = Some True then Ok_id (req_id req) else Not_found)))"

definition deleteCard :: "runtime \<Rightarrow> jsstring \<Rightarrow> request \<Rightarrow> world \<Rightarrow> world \<times> response" where
  "deleteCard rt write_token req w =
     guarded write_token req w (\<lambda>w.
       case enqueueWrite rt (deleteMutator (req_id req)) w of
         (w1, removed) \<Rightarrow>
           (w1, if removed = Some True then Ok_id (req_id req) else Not_found))"

section \<open>The specification's wording of the text rules\<close>

text \<open>
  The specification describes the normalisation of \<^verbatim>\<open>front\<close> and \<^verbatim>\<open>back\<close> in words. The
  definitions of this section follow those words, to be compared with \<open>sanitizeCard\<close>.

  "Strips a leading run of \<^verbatim>\<open>=\<close> characters and surrounding whitespace":
\<close>

definition spec_strip :: "jsstring \<Rightarrow> jsstring" where
  "spec_strip s =
     rev (dropWhile isWhiteSpace (rev (dropWhile isWhiteSpace (dropWhile isEq s))))"

text \<open>
  "From an explicit \<^verbatim>\<open>front\<close> field or a legacy \<^verbatim>\<open>portuguese\<close> alias": the field when the
  input has it with a value other than null, else the alias on the same terms, else the empty
  text.
\<close>

definition spec_present :: "jsobj \<Rightarrow> string \<Rightarrow> jsval option" where
  "spec_present ps name =
     (case map_of ps (lit name) of
        None \<Rightarrow> None
      | Some v \<Rightarrow> if v = JNull \<or> v = JUndefined then None else Some v)"

definition spec_pick :: "jsobj \<Rightarrow> string \<Rightarrow> string \<Rightarrow> jsval" where
  "spec_pick ps name alias =
     (case spec_present ps name of
        Some v \<Rightarrow> v
      | None \<Rightarrow> (case spec_present ps alias of Some a \<Rightarrow> a | None \<Rightarrow> JStr []))"

definition spec_front :: "runtime \<Rightarrow> jsobj \<Rightarrow> jsstring" where
  "spec_front rt ps = spec_strip (toStr (NumberToString rt) (spec_pick ps ''front'' ''portuguese''))"

text \<open>"Joining sequences with \<^verbatim>\<open>" / "\<close>", and stripping both \<^verbatim>\<open>front\<close> and \<^verbatim>\<open>back\<close>:\<close>

definition spec_back_claimed :: "runtime \<Rightarrow> jsobj \<Rightarrow> jsstring" where
  "spec_back_claimed rt ps =
     spec_strip
       (case spec_pick ps ''back'' ''translation'' of
          JArr vs \<Rightarrow> Array_join (map (toStr (NumberToString rt)) vs) (lit '' / '')
        | v \<Rightarrow> toStr (NumberToString rt) v)"

text \<open>The same with a joined sequence left as it is:\<close>

definition spec_back :: "runtime \<Rightarrow> jsobj \<Rightarrow> jsstring" where
  "spec_back rt ps =
     (case spec_pick ps ''back'' ''translation'' of
        JArr vs \<Rightarrow> Array_join (map (toStr (NumberToString rt)) vs) (lit '' / '')
      | v \<Rightarrow> spec_strip (toStr (NumberToString rt) v))"

definition beginsWithEq :: "jsstring \<Rightarrow> bool" where
  "beginsWithEq s = (case s of [] \<Rightarrow> False | c # cs \<Rightarrow> isEq c)"

section \<open>Values of the examples\<close>

text \<open>
  A card as a first \<^verbatim>\<open>POST\<close> of \<^verbatim>\<open>{id: "abc", front: "x", back: "y"}\<close> on New Year's Day of
  2024 stores it, and the text of a store file holding that card alone.
\<close>

definition stored_abc :: jsobj where
  "stored_abc =
     [(lit ''id'', JStr (lit ''abc'')),
      (lit ''front'', JStr (lit ''x'')),
      (lit ''back'', JStr (lit ''y'')),
      (lit ''lang_from'', JStr (lit ''pt'')),
      (lit ''lang_to'', JStr (lit ''de'')),
      (lit ''tags'', JArr []),
      (lit ''ease'', JNum num_2_5),
      (lit ''interval'', JNum num_0),
      (lit ''next_review'', JStr (lit ''2024-01-01T00:00:00.000Z'')),
      (lit ''lapses'', JNum num_0),
      (lit ''created_at'', JStr (lit ''2024-01-01T00:00:00.000Z''))]"

definition store_text :: jsstring where
  \<open>store_text = lit ''[{"id":"abc","front":"x","back":"y","lang_from":"pt","lang_to":"de","tags":[],"ease":2.5,"interval":0,"next_review":"2024-01-01T00:00:00.000Z","lapses":0,"created_at":"2024-01-01T00:00:00.000Z"}]''\<close>

text \<open>
  The same card sent again on 1 June 2025, with no \<^verbatim>\<open>created_at\<close> in the body, and what
  \<open>sanitizeCard\<close> makes of it; and a card with a generated id.
\<close>

definition repost_raw :: jsval where
  "repost_raw =
     JObj [(lit ''id'', JStr (lit ''abc'')),
           (lit ''front'', JStr (lit ''x'')),
           (lit ''back'', JStr (lit ''y''))]"

definition reposted_abc :: jsobj where
  "reposted_abc =
     [(lit ''id'', JStr (lit ''abc'')),
      (lit ''front'', JStr (lit ''x'')),
      (lit ''back'', JStr (lit ''y'')),
      (lit ''lang_from'', JStr (lit ''pt'')),
      (lit ''lang_to'', JStr (lit ''de'')),
      (lit ''tags'', JArr []),
      (lit ''ease'', JNum num_2_5),
      (lit ''interval'', JNum num_0),
      (lit ''next_review'', JStr (lit ''2025-06-01T12:00:00.000Z'')),
      (lit ''lapses'', JNum num_0),
      (lit ''created_at'', JStr (lit ''2025-06-01T12:00:00.000Z''))]"

text \<open>
  Scenario E of the specification; a body whose \<^verbatim>\<open>back\<close> is a sequence with a leading
  \<^verbatim>\<open>=\<close>; Scenario D, a body with an empty front; and a body whose \<^verbatim>\<open>front\<close> has two runs of
  \<^verbatim>\<open>=\<close>.
\<close>

definition scenario_E :: jsobj where
  "scenario_E =
     [(lit ''front'', JStr (lit ''= foo'')),
      (lit ''back'', JArr [JStr (lit ''a''), JStr (lit ''b'')])]"

definition eq_in_sequence :: jsobj where
  "eq_in_sequence =
     [(lit ''front'', JStr (lit ''a'')),
      (lit ''back'', JArr [JStr (lit ''=b'')])]"

definition scenario_D :: jsobj where
  "scenario_D = [(lit ''front'', JStr []), (lit ''back'', JStr (lit ''x''))]"

definition two_runs :: jsobj where
  "two_runs =
     [(lit ''id'', JStr (lit ''abc'')),
      (lit ''front'', JStr (lit ''= ='')),
      (lit ''back'', JStr (lit ''b''))]"

definition casa_raw :: jsval where
  "casa_raw = JObj [(lit ''front'', JStr (lit ''casa'')), (lit ''back'', JStr (lit ''Haus''))]"

definition casa_card :: jsobj where
  "casa_card =
     [(lit ''id'', JStr (lit ''k3v9x0q2m1za'')),
      (lit ''front'', JStr (lit ''casa'')),
      (lit ''back'', JStr (lit ''Haus'')),
      (lit ''lang_from'', JStr (lit ''pt'')),
      (lit ''lang_to'', JStr (lit ''de'')),
      (lit ''tags'', JArr []),
      (lit ''ease'', JNum num_2_5),
      (lit ''interval'', JNum num_0),
      (lit ''next_review'', JStr (lit ''2025-06-01T12:00:00.000Z'')),
      (lit ''lapses'', JNum num_0),
      (lit ''created_at'', JStr (lit ''2025-06-01T12:00:00.000Z''))]"

text \<open>
  A runtime for the examples. It answers as the engine does on what the examples hand it:
  the numbers 0, 1 and 2.5, the store text above, the text of the empty array and a text
  that is not JSON. Its other answers are placeholders (so is the text it writes for a
  collection that is not empty: no example reads a written file back), and no theorem depends
  on them.
\<close>

definition example_runtime :: runtime where
  "example_runtime =
     \<lparr>NumberToString =
        (\<lambda>n. if n = num_0 then lit ''0'' else if n = num_1 then lit ''1''
              else if n = num_2_5 then lit ''2.5'' else lit ''NaN''),
      StringToNumber =
        (\<lambda>s. if s = [] \<or> s = lit ''0'' then num_0 else if s = lit ''1'' then num_1
              else if s = lit ''2.5'' then num_2_5 else num_NaN),
      JSON_parse =
        (\<lambda>t. if t = lit ''[]\<newline>'' \<or> t = lit ''[]'' then Some []
              else if t = store_text then Some [stored_abc] else None),
      JSON_stringify = (\<lambda>cs. if cs = [] then lit ''[]'' else lit ''[...]'')\<rparr>"

definition num_3 :: jsnum where "num_3 = 0x4008000000000000"

text \<open>
  A batch of two items that carry the same new id, and the two cards \<open>sanitizeCard\<close> makes
  of them; and a patch whose \<^verbatim>\<open>front\<close> is an object with a \<^verbatim>\<open>toString\<close> property of its own,
  which \<^verbatim>\<open>String\<close> cannot convert.
\<close>

definition dup_raw_1 :: jsval where
  "dup_raw_1 =
     JObj [(lit ''id'', JStr (lit ''dup'')),
           (lit ''front'', JStr (lit ''um'')),
           (lit ''back'', JStr (lit ''eins''))]"

definition dup_raw_2 :: jsval where
  "dup_raw_2 =
     JObj [(lit ''id'', JStr (lit ''dup'')),
           (lit ''front'', JStr (lit ''dois'')),
           (lit ''back'', JStr (lit ''zwei''))]"

definition dup_first :: jsobj where
  "dup_first =
     cardFields dup_raw_1 (lit ''2025-06-01T12:00:00.000Z'') (lit ''k3v9x0q2m1za'')
       (lit ''um'') (lit ''eins'') num_2_5 num_0 num_0"

definition dup_second :: jsobj where
  "dup_second =
     cardFields dup_raw_2 (lit ''2025-06-01T12:00:00.000Z'') (lit ''k3v9x0q2m1za'')
       (lit ''dois'') (lit ''zwei'') num_2_5 num_0 num_0"

definition unconvertible_patch :: jsval where
  "unconvertible_patch = JObj [(lit ''front'', JObj [(lit ''toString'', JNum num_1)])]"

definition store_world :: world where
  "store_world = \<lparr>w_file = Some store_text, w_writable = True, w_log = []\<rparr>"


definition secret :: jsstring where
  "secret = lit ''s3cret''"

definition request_with :: "string \<Rightarrow> jsval \<Rightarrow> request" where
  "request_with cid body =
     \<lparr>req_auth = Some (lit ''Bearer s3cret''), req_id = lit cid, req_body = body\<rparr>"

section \<open>Properties\<close>

subsection \<open>Strings, objects and lists\<close>

lemma unat_of_char16: "unat (of_char c :: 16 word) = of_char c"
proof -
  have "(of_char c :: nat) < 256" by (rule nat_of_char_less_256)
  also have "(256::nat) < 2 ^ LENGTH(16)" by simp
  finally have "unat (word_of_nat (of_char c :: nat) :: 16 word) = of_char c"
    by (rule of_nat_inverse [OF refl])
  then show ?thesis by (simp only: of_nat_of_char)
qed

lemma of_char_inj16: "(of_char a :: 16 word) = of_char b \<longleftrightarrow> a = b"
proof
  assume "(of_char a :: 16 word) = of_char b"
  then have "unat (of_char a :: 16 word) = unat (of_char b :: 16 word)" by simp
  then show "a = b" by (simp add: unat_of_char16)
qed simp

lemma lit_eq_iff [simp]: "lit a = lit b \<longleftrightarrow> a = b"
proof -
  have "inj (of_char :: char \<Rightarrow> 16 word)"
    by (rule injI) (simp only: of_char_inj16)
  then show ?thesis
    unfolding lit_def by (rule inj_map_eq_map)
qed

lemma lit_Nil_iff [simp]: "lit a = [] \<longleftrightarrow> a = []"
  by (simp add: lit_def)

lemma map_of_map_values:
  "map_of (map (\<lambda>(k, v). (k, f k v)) a) k = map_option (f k) (map_of a k)"
  by (induction a) auto

lemma map_of_filter_keys:
  "P k \<Longrightarrow> map_of (filter (\<lambda>(k, v). P k) b) k = map_of b k"
  by (induction b) auto

lemma map_of_spread:
  "map_of (spread a b) k = (case map_of b k of Some w \<Rightarrow> Some w | None \<Rightarrow> map_of a k)"
proof (cases "map_of a k")
  case None
  then show ?thesis
    by (simp add: spread_def map_add_def map_of_map_values map_of_filter_keys split: option.splits)
next
  case (Some v)
  then show ?thesis
    by (simp add: spread_def map_add_def map_of_map_values split: option.splits)
qed

lemma getProp_spread:
  "getProp (JObj (spread a b)) k =
     (case map_of b k of Some w \<Rightarrow> w | None \<Rightarrow> getProp (JObj a) k)"
  by (simp add: map_of_spread split: option.splits)

lemma findIndex_None: "findIndex P xs = None \<longleftrightarrow> (\<forall>x \<in> set xs. \<not> P x)"
  by (induction xs) auto

lemma findIndex_Some:
  "findIndex P xs = Some i \<Longrightarrow> i < length xs \<and> P (xs ! i) \<and> (\<forall>j < i. \<not> P (xs ! j))"
proof (induction xs arbitrary: i)
  case Nil
  then show ?case by simp
next
  case (Cons x xs)
  show ?case
  proof (cases "P x")
    case True
    with Cons.prems show ?thesis by simp
  next
    case False
    with Cons.prems obtain k where k: "findIndex P xs = Some k" "i = Suc k" by auto
    from Cons.IH [OF k(1)] False k(2) show ?thesis
      by (auto simp: less_Suc_eq_0_disj)
  qed
qed

lemma patch_absent: "\<forall>c \<in> set cards. \<not> hasId cid c \<Longrightarrow> patchMutator cid p cards = (cards, False)"
  by (simp add: patchMutator_def findIndex_None [THEN iffD2])

lemma patch_present: "\<exists>c \<in> set cards. hasId cid c \<Longrightarrow> snd (patchMutator cid p cards) = True"
proof -
  assume "\<exists>c \<in> set cards. hasId cid c"
  then have "findIndex (hasId cid) cards \<noteq> None" by (simp add: findIndex_None)
  then show ?thesis by (auto simp: patchMutator_def)
qed

lemma delete_absent: "\<forall>c \<in> set cards. \<not> hasId cid c \<Longrightarrow> deleteMutator cid cards = (cards, False)"
  by (simp add: deleteMutator_def Let_def)

lemma delete_present: "\<exists>c \<in> set cards. hasId cid c \<Longrightarrow> snd (deleteMutator cid cards) = True"
proof -
  assume "\<exists>c \<in> set cards. hasId cid c"
  then have "length (filter (\<lambda>c. \<not> hasId cid c) cards) < length cards"
    by (metis (mono_tags, lifting) length_filter_less)
  then show ?thesis by (simp add: deleteMutator_def Let_def)
qed


subsection \<open>Requests, the store file and the queue\<close>

lemma requireToken_bearer:
  "wt \<noteq> [] \<Longrightarrow> requireToken wt (Some (lit ''Bearer '' @ wt)) = Some wt"
  by (simp add: requireToken_def Let_def lit_def)

lemma guarded_authorized:
  "wt \<noteq> [] \<Longrightarrow> req_auth req = Some (lit ''Bearer '' @ wt) \<Longrightarrow> guarded wt req w h = h w"
  by (simp add: guarded_def requireToken_bearer)

lemma safeRead_parsed:
  "w_file w = Some txt \<Longrightarrow> JSON_parse rt txt = Some cards \<Longrightarrow> safeRead rt w = (w, Inr cards)"
  by (simp add: safeRead_def)

lemma enqueueWrite_flag:
  "w_file w = Some txt \<Longrightarrow> JSON_parse rt txt = Some cards \<Longrightarrow>
     snd (enqueueWrite rt mutator w) = Some (snd (mutator cards))"
  by (simp add: enqueueWrite_def safeRead_parsed safeWrite_def writeFile_def split: prod.splits)

lemma lit_append_lit [simp]: "lit a @ lit b = lit (a @ b)"
  by (simp add: lit_def)

lemma map_of_setProp: "map_of (setProp k v ps) k' = (if k' = k then Some v else map_of ps k')"
  by (induction ps) auto

lemma ownProps_falsy: "\<not> truthy v \<Longrightarrow> ownProps v = []"
  by (cases v) auto

lemma preparePatch_keeps:
  assumes "preparePatch rt body = Inr p" and "k \<noteq> lit ''front''" and "k \<noteq> lit ''back''"
  shows "map_of (ownProps p) k = map_of (ownProps body) k"
proof (cases "truthy body")
  case False
  with assms(1) have "p = JObj []"
    by (simp add: preparePatch_def or_else_def bindE_def)
  with False show ?thesis by (simp add: ownProps_falsy)
next
  case True
  show ?thesis
  proof (cases body)
    case (JObj ps)
    with assms True show ?thesis
      by (auto simp: preparePatch_def or_else_def bindE_def map_of_setProp
               split: if_splits sum.splits)
  qed (use assms(1) True in \<open>auto simp: preparePatch_def or_else_def\<close>)
qed

lemma patchMutator_found:
  "findIndex (hasId cid) cards = Some i \<Longrightarrow>
     i < length cards \<and> fst (patchMutator cid p cards) ! i = mergePatch (cards ! i) p"
  by (frule findIndex_Some) (simp add: patchMutator_def)


subsection \<open>The index of the upsert\<close>

lemma sameValueZero_sym: "sameValueZero a b \<Longrightarrow> sameValueZero b a"
  by (cases a; cases b) auto

lemma isZero_not_isNaN: "isZero w \<Longrightarrow> \<not> isNaN w"
proof -
  assume z: "isZero w"
  have "w AND 0x7FF0000000000000 = (w AND 0x7FFFFFFFFFFFFFFF) AND 0x7FF0000000000000"
    by (simp add: and.assoc)
  with z have "w AND 0x7FF0000000000000 = 0" by (simp add: isZero_def)
  then show "\<not> isNaN w" by (simp add: isNaN_def)
qed

lemma sameValueZero_trans: "sameValueZero a b \<Longrightarrow> sameValueZero b c \<Longrightarrow> sameValueZero a c"
  by (cases a; cases b; cases c) (auto dest: isZero_not_isNaN)

lemma Map_get_Map_set:
  "Map_get (Map_set k v m) q = (if sameValueZero k q then Some v else Map_get m q)"
proof (induction m)
  case Nil
  then show ?case by simp
next
  case (Cons e m)
  obtain k' v' where e: "e = (k', v')" by (cases e)
  show ?case
  proof (cases "sameValueZero k' k")
    case True
    then have "sameValueZero k' q \<longleftrightarrow> sameValueZero k q"
      using sameValueZero_sym sameValueZero_trans by blast
    with True show ?thesis by (simp add: e)
  next
    case False
    then have "sameValueZero k' q \<Longrightarrow> \<not> sameValueZero k q"
      using sameValueZero_sym sameValueZero_trans by blast
    with False Cons.IH show ?thesis by (auto simp: e)
  qed
qed

lemma Map_get_fold_None:
  "Map_get (fold (\<lambda>(k, v) m. Map_set k v m) es m) q = None \<longleftrightarrow>
     (\<forall>(k, v) \<in> set es. \<not> sameValueZero k q) \<and> Map_get m q = None"
  by (induction es arbitrary: m) (auto simp: Map_get_Map_set split: if_splits)

lemma Map_get_fold_Some:
  "Map_get (fold (\<lambda>(k, v) m. Map_set k v m) es m) q = Some i \<Longrightarrow>
     (\<exists>k. (k, i) \<in> set es \<and> sameValueZero k q) \<or> Map_get m q = Some i"
proof (induction es arbitrary: m)
  case Nil
  then show ?case by simp
next
  case (Cons e es)
  obtain k v where e: "e = (k, v)" by (cases e)
  from Cons.prems have "Map_get (fold (\<lambda>(k, v) m. Map_set k v m) es (Map_set k v m)) q = Some i"
    by (simp add: e)
  from Cons.IH [OF this] show ?case
    by (auto simp: e Map_get_Map_set split: if_splits)
qed

lemma set_zip_ids:
  "set (zip (map f cards) [0..<length cards]) = {(f (cards ! i), i) | i. i < length cards}"
proof -
  have "(\<exists>j. a = map f cards ! j \<and> b = [0..<length cards] ! j \<and> j < length cards)
        \<longleftrightarrow> (b < length cards \<and> a = f (cards ! b))" for a b
    by (rule iffI) (auto intro: exI [of _ b])
  then show ?thesis
    by (auto simp: set_zip)
qed

lemma cardIndex_None:
  "Map_get (cardIndex cards) (getProp (JObj n) (lit ''id'')) = None \<longleftrightarrow>
     (\<forall>c \<in> set cards. \<not> sameId c n)"
proof -
  have "(\<forall>(k, v) \<in> set (zip (map (\<lambda>x. getProp (JObj x) (lit ''id'')) cards) [0..<length cards]).
            \<not> sameValueZero k (getProp (JObj n) (lit ''id'')))
        \<longleftrightarrow> (\<forall>i < length cards. \<not> sameId (cards ! i) n)"
    unfolding set_zip_ids sameId_def by blast
  also have "\<dots> \<longleftrightarrow> (\<forall>c \<in> set cards. \<not> sameId c n)"
    by (simp add: all_set_conv_all_nth)
  finally show ?thesis
    by (simp add: cardIndex_def new_Map_def Map_get_fold_None del: getProp.simps)
qed

lemma cardIndex_Some:
  assumes "Map_get (cardIndex cards) (getProp (JObj n) (lit ''id'')) = Some i"
  shows "i < length cards \<and> sameId (cards ! i) n"
proof -
  from assms have "\<exists>k. (k, i) \<in> set (zip (map (\<lambda>x. getProp (JObj x) (lit ''id'')) cards) [0..<length cards])
      \<and> sameValueZero k (getProp (JObj n) (lit ''id''))"
    using Map_get_fold_Some [of _ "[]" _ i] by (simp add: cardIndex_def new_Map_def del: getProp.simps)
  then show ?thesis
    unfolding set_zip_ids sameId_def by blast
qed

lemma upsertMutator_single:
  "fst (upsertMutator [n] cards) =
     (case Map_get (cardIndex cards) (getProp (JObj n) (lit ''id'')) of
        Some i \<Rightarrow> cards[i := spread (cards ! i) n]
      | None \<Rightarrow> cards @ [n])"
  by (simp add: upsertMutator_def upsertStep_def Let_def del: getProp.simps)


text \<open>
  A batch of one item. If its id is the id of a card of the collection (as the index compares
  ids: SameValueZero, which on strings is equality), that card is replaced in place by its
  merge with the item and the length is unchanged; otherwise the item is appended and the
  length grows by exactly one.
\<close>

lemma upsert_replaces_or_appends:
  "((\<exists>c \<in> set cards. sameId c n) \<longrightarrow>
       length (fst (upsertMutator [n] cards)) = length cards
     \<and> (\<exists>i < length cards. sameId (cards ! i) n
            \<and> fst (upsertMutator [n] cards) = cards[i := spread (cards ! i) n]))
   \<and> ((\<forall>c \<in> set cards. \<not> sameId c n) \<longrightarrow>
       fst (upsertMutator [n] cards) = cards @ [n]
     \<and> length (fst (upsertMutator [n] cards)) = length cards + 1)"
proof (cases "Map_get (cardIndex cards) (getProp (JObj n) (lit ''id''))")
  case None
  then have "\<forall>c \<in> set cards. \<not> sameId c n" by (simp only: cardIndex_None)
  with None show ?thesis by (simp add: upsertMutator_single del: getProp.simps)
next
  case (Some i)
  from cardIndex_Some [OF Some] have i: "i < length cards" "sameId (cards ! i) n" by simp_all
  then have "\<exists>c \<in> set cards. sameId c n" using nth_mem by blast
  with Some i show ?thesis by (auto simp: upsertMutator_single simp del: getProp.simps)
qed


lemma upsert_replaces_or_appends_example:
  "sameId stored_abc reposted_abc
   \<and> fst (upsertMutator [reposted_abc] [stored_abc]) = [reposted_abc]
   \<and> length (fst (upsertMutator [reposted_abc] [stored_abc])) = length [stored_abc]
   \<and> \<not> sameId stored_abc casa_card
   \<and> fst (upsertMutator [casa_card] [stored_abc]) = [stored_abc, casa_card]"
proof -
  have same: "sameId stored_abc reposted_abc"
    by (simp add: sameId_def stored_abc_def reposted_abc_def)
  have other: "\<not> sameId stored_abc casa_card"
    by (simp add: sameId_def stored_abc_def casa_card_def)
  have merged: "spread stored_abc reposted_abc = reposted_abc"
    by (simp add: spread_def stored_abc_def reposted_abc_def)
  from upsert_replaces_or_appends [of "[stored_abc]" reposted_abc]
       upsert_replaces_or_appends [of "[stored_abc]" casa_card] same other merged
  show ?thesis by simp
qed

text \<open>
  A batch of several items. Every item is looked up in the index of the collection as it was
  loaded, which the loop never updates: each item whose id no loaded card has is pushed, also
  when an earlier item of the batch has pushed a card with that id.
\<close>

lemma fold_upsertStep_length:
  "length (fold (upsertStep idx) ns cs) =
     length cs + length (filter (\<lambda>n. Map_get idx (getProp (JObj n) (lit ''id'')) = None) ns)"
proof (induction ns arbitrary: cs)
  case Nil
  then show ?case by simp
next
  case (Cons n ns)
  have "length (upsertStep idx n cs) =
      (if Map_get idx (getProp (JObj n) (lit ''id'')) = None then Suc (length cs) else length cs)"
    by (simp add: upsertStep_def del: getProp.simps split: option.splits)
  with Cons.IH [of "upsertStep idx n cs"] show ?case
    by (simp del: getProp.simps)
qed

lemma upsertMutator_length:
  "length (fst (upsertMutator ns cards)) =
     length cards + length (filter (\<lambda>n. \<forall>c \<in> set cards. \<not> sameId c n) ns)"
  by (simp add: upsertMutator_def Let_def fold_upsertStep_length cardIndex_None del: getProp.simps)

subsection \<open>Text normalisation and \<open>sanitizeCard\<close>\<close>

lemma trim_spec: "trim (stripLeadingEq s) = spec_strip s"
proof (cases s)
  case Nil
  then show ?thesis by (simp add: trim_def stripLeadingEq_def spec_strip_def)
next
  case (Cons c cs)
  then show ?thesis
    by (cases "isEq c") (simp_all add: trim_def stripLeadingEq_def spec_strip_def)
qed

lemma rev_dropWhile_rev_take:
  "rev (dropWhile P (rev xs)) = take (length xs - length (takeWhile P (rev xs))) xs"
  by (simp add: dropWhile_eq_drop drop_rev)

lemma no_leading_after_trailing:
  assumes "dropWhile P xs = xs"
  shows "dropWhile P (rev (dropWhile P (rev xs))) = rev (dropWhile P (rev xs))"
proof (cases "rev (dropWhile P (rev xs)) = []")
  case True
  show ?thesis by (simp only: True dropWhile.simps)
next
  case False
  then have ne: "xs \<noteq> []" by auto
  with assms have "\<not> P (hd xs)" by (simp add: dropWhile_eq_self_iff)
  moreover have "hd (rev (dropWhile P (rev xs))) = hd xs"
  proof -
    from False have "0 < length xs - length (takeWhile P (rev xs))"
      unfolding rev_dropWhile_rev_take by (cases "length xs - length (takeWhile P (rev xs))") simp_all
    then show ?thesis
      unfolding rev_dropWhile_rev_take by (rule hd_take)
  qed
  ultimately show ?thesis using False by (simp add: dropWhile_eq_self_iff)
qed

lemma trim_trim: "trim (trim s) = trim s"
proof -
  have "dropWhile isWhiteSpace (trim s) = trim s"
    unfolding trim_def by (rule no_leading_after_trailing) simp
  then show ?thesis
    by (simp add: trim_def)
qed


lemma stripLeadingEq_id: "\<not> beginsWithEq s \<Longrightarrow> stripLeadingEq s = s"
  by (cases s) (simp_all add: beginsWithEq_def stripLeadingEq_def)

lemma nullish_iff: "nullish v \<longleftrightarrow> v = JNull \<or> v = JUndefined"
  by (cases v) simp_all

lemma frontIn_spec: "frontIn (JObj ps) = spec_pick ps ''front'' ''portuguese''"
  by (simp add: frontIn_def spec_pick_def spec_present_def coalesce_def nullish_iff
      split: option.splits)

lemma backIn_spec: "backIn (JObj ps) = spec_pick ps ''back'' ''translation''"
  by (simp add: backIn_def spec_pick_def spec_present_def coalesce_def nullish_iff
      split: option.splits)

lemma mapE_js_String:
  "mapE (js_String rt) vs = Inr ss \<Longrightarrow> ss = map (toStr (NumberToString rt)) vs"
  by (induction vs arbitrary: ss)
     (auto simp: bindE_def js_String_def split: sum.splits if_splits)

lemma backText_spec:
  assumes "backText rt v = Inr b"
  shows "b = (case v of
                JArr vs \<Rightarrow> Array_join (map (toStr (NumberToString rt)) vs) (lit '' / '')
              | _ \<Rightarrow> spec_strip (toStr (NumberToString rt) v))"
  using assms
  by (cases v)
     (auto simp: backText_def bindE_def js_String_def trim_spec dest: mapE_js_String
           split: sum.splits if_splits)

lemma sanitizeCard_returns:
  assumes "sanitizeCard rt now fresh c = Inr r"
  obtains s b where "\<not> nullish c" and "js_String rt (frontIn c) = Inr s"
    and "backText rt (backIn c) = Inr b"
    and "trim (stripLeadingEq s) = [] \<or> b = [] \<Longrightarrow> r = None"
    and "trim (stripLeadingEq s) \<noteq> [] \<Longrightarrow> b \<noteq> [] \<Longrightarrow>
           \<exists>e i l. js_Number rt (coalesce (getProp c (lit ''ease'')) (JNum num_2_5)) = Inr e
                \<and> js_Number rt (coalesce (getProp c (lit ''interval'')) (JNum num_0)) = Inr i
                \<and> js_Number rt (coalesce (getProp c (lit ''lapses'')) (JNum num_0)) = Inr l
                \<and> r = Some (cardFields c now fresh (trim (stripLeadingEq s)) b e i l)"
  using assms
  by (auto simp: sanitizeCard_def bindE_def split: if_splits sum.splits)


lemma or_else_idem: "truthy b \<Longrightarrow> or_else (or_else a b) c = or_else a b"
  by (simp add: or_else_def)

lemma tags_idem:
  "(case (case v of JArr ts \<Rightarrow> JArr (take 10 ts) | _ \<Rightarrow> JArr []) of
      JArr ts \<Rightarrow> JArr (take 10 ts) | _ \<Rightarrow> JArr [])
   = (case v of JArr ts \<Rightarrow> JArr (take 10 ts) | _ \<Rightarrow> JArr [])"
  by (cases v) simp_all

lemma cardFields_again:
  assumes "now1 \<noteq> []" and "fresh1 \<noteq> []"
  shows "cardFields (JObj (cardFields x now1 fresh1 f b e i l)) now2 fresh2 f b e i l
       = cardFields x now1 fresh1 f b e i l"
  using assms by (simp add: cardFields_def or_else_idem tags_idem)

lemma sanitizeCard_cardFields:
  assumes "f \<noteq> []" and "b \<noteq> []" and "trim (stripLeadingEq f) = f" and "trim (stripLeadingEq b) = b"
  shows "sanitizeCard rt now2 fresh2 (JObj (cardFields x now1 fresh1 f b e i l))
       = Inr (Some (cardFields (JObj (cardFields x now1 fresh1 f b e i l)) now2 fresh2 f b e i l))"
proof -
  let ?c = "JObj (cardFields x now1 fresh1 f b e i l)"
  have fI: "frontIn ?c = JStr f" by (simp add: frontIn_def cardFields_def coalesce_def)
  have bI: "backIn ?c = JStr b" by (simp add: backIn_def cardFields_def coalesce_def)
  have fs: "js_String rt (frontIn ?c) = Inr f" by (simp add: fI js_String_def)
  have bs: "backText rt (backIn ?c) = Inr b"
    by (simp add: bI backText_def js_String_def bindE_def assms(4))
  have e: "js_Number rt (coalesce (getProp ?c (lit ''ease'')) (JNum num_2_5)) = Inr e"
    by (simp add: cardFields_def coalesce_def)
  have i: "js_Number rt (coalesce (getProp ?c (lit ''interval'')) (JNum num_0)) = Inr i"
    by (simp add: cardFields_def coalesce_def)
  have l: "js_Number rt (coalesce (getProp ?c (lit ''lapses'')) (JNum num_0)) = Inr l"
    by (simp add: cardFields_def coalesce_def)
  show ?thesis
    unfolding sanitizeCard_def fs bs e i l
    by (simp add: bindE_def assms del: getProp.simps)
qed


text \<open>An input that is neither an object nor null or undefined has no fields and is refused.\<close>

lemma sanitizeCard_no_fields:
  assumes "\<not> nullish c" and "\<forall>ps. c \<noteq> JObj ps"
  shows "sanitizeCard rt now fresh c = Inr None"
proof -
  from assms(2) have "getProp c k = JUndefined" for k by (cases c) simp_all
  then have "frontIn c = JStr []" and "backIn c = JStr []"
    by (simp_all add: frontIn_def backIn_def coalesce_def)
  with assms(1) show ?thesis
    by (simp add: sanitizeCard_def js_String_def backText_def bindE_def trim_def stripLeadingEq_def)
qed

text \<open>
  The creation time of a sanitized item is the one its raw input supplies, if any, and the
  time of the call otherwise; a merge over an existing card takes it from the item.
\<close>

lemma sanitizeCard_created_at:
  assumes "sanitizeCard rt now fresh c = Inr (Some n)"
  shows "getProp (JObj n) (lit ''created_at'') = or_else (getProp c (lit ''created_at'')) (JStr now)"
proof -
  from assms obtain s b where
    ne: "trim (stripLeadingEq s) = [] \<or> b = [] \<Longrightarrow> Some n = None" and
    some: "trim (stripLeadingEq s) \<noteq> [] \<Longrightarrow> b \<noteq> [] \<Longrightarrow>
           \<exists>e i l. Some n = Some (cardFields c now fresh (trim (stripLeadingEq s)) b e i l)"
    by (rule sanitizeCard_returns) blast
  from ne have "trim (stripLeadingEq s) \<noteq> []" and "b \<noteq> []" by auto
  from some [OF this] show ?thesis by (auto simp: cardFields_def)
qed

lemma upsert_takes_created_at_of_item:
  assumes "sanitizeCard rt now fresh c = Inr (Some n)"
    and "\<not> truthy (getProp c (lit ''created_at''))"
  shows "getProp (JObj (spread existing n)) (lit ''created_at'') = JStr now"
proof -
  from sanitizeCard_created_at [OF assms(1)] assms(2)
  have "getProp (JObj n) (lit ''created_at'') = JStr now" by (simp add: or_else_def)
  then show ?thesis by (auto simp: map_of_spread split: option.splits)
qed

subsection \<open>Evaluating the examples\<close>

lemmas eval_defs =
  sanitizeCard_def frontIn_def backIn_def backText_def cardFields_def js_String_def
  coalesce_def or_else_def bindE_def trim_def stripLeadingEq_def isEq_def isWhiteSpace_def
  num_0_def num_1_def num_2_5_def num_NaN_def

section \<open>The claims\<close>

text \<open>
  The claims about the server, in their order. The fifth, on the order in which the engine
  runs the units of the promise chain and on their not interleaving, has no statement here:
  one unit is \<open>enqueueWrite\<close> above, and schedules of several units are not modelled.
\<close>

text \<open>
  C1 says that an upsert of an item whose raw input had no \<^verbatim>\<open>created_at\<close> keeps the
  \<^verbatim>\<open>created_at\<close> of the card it replaces. The code does not: \<open>sanitizeCard\<close> fills the field
  with the time of the call, and the merge of the mutator lets the item's fields win. Here
  the card stored in 2024 is sent again in 2025 and comes out with the creation time of
  2025.
\<close>

theorem repost_overwrites_created_at:
  "getProp repost_raw (lit ''created_at'') = JUndefined
   \<and> sanitizeCard example_runtime (lit ''2025-06-01T12:00:00.000Z'') (lit ''k3v9x0q2m1za'') repost_raw
       = Inr (Some reposted_abc)
   \<and> fst (upsertMutator [reposted_abc] [stored_abc]) = [reposted_abc]
   \<and> getProp (JObj stored_abc) (lit ''created_at'') = JStr (lit ''2024-01-01T00:00:00.000Z'')
   \<and> getProp (JObj reposted_abc) (lit ''created_at'') = JStr (lit ''2025-06-01T12:00:00.000Z'')"
proof -
  have "sanitizeCard example_runtime (lit ''2025-06-01T12:00:00.000Z'') (lit ''k3v9x0q2m1za'') repost_raw
       = Inr (Some reposted_abc)"
    by (simp add: eval_defs repost_raw_def reposted_abc_def lit_def)
  moreover have "fst (upsertMutator [reposted_abc] [stored_abc]) = [reposted_abc]"
    by (simp add: upsertMutator_def upsertStep_def cardIndex_def new_Map_def spread_def
        stored_abc_def reposted_abc_def)
  ultimately show ?thesis
    by (simp add: repost_raw_def stored_abc_def reposted_abc_def)
qed

text \<open>
  C2 says that no operation writes a card with an empty \<^verbatim>\<open>front\<close> or \<^verbatim>\<open>back\<close>. The handler of
  \<^verbatim>\<open>PUT\<close> normalises the two fields of the patch as \<open>sanitizeCard\<close> does but never tests the
  result: the patch \<^verbatim>\<open>{"front": ""}\<close> is accepted, answered with success, and leaves the
  card with an empty front.
\<close>

theorem put_stores_an_empty_front:
  "preparePatch example_runtime (JObj [(lit ''front'', JStr [])]) = Inr (JObj [(lit ''front'', JStr [])])
   \<and> snd (patchMutator (lit ''abc'') (JObj [(lit ''front'', JStr [])]) [stored_abc]) = True
   \<and> map (\<lambda>c. getProp (JObj c) (lit ''front''))
        (fst (patchMutator (lit ''abc'') (JObj [(lit ''front'', JStr [])]) [stored_abc])) = [JStr []]
   \<and> snd (putCard example_runtime secret (request_with ''abc'' (JObj [(lit ''front'', JStr [])]))
        store_world) = Ok_id (lit ''abc'')"
proof -
  have prep: "preparePatch example_runtime (JObj [(lit ''front'', JStr [])])
      = Inr (JObj [(lit ''front'', JStr [])])"
    by (simp add: preparePatch_def eval_defs)
  have mut: "patchMutator (lit ''abc'') (JObj [(lit ''front'', JStr [])]) [stored_abc]
      = ([mergePatch stored_abc (JObj [(lit ''front'', JStr [])])], True)"
    by (simp add: patchMutator_def hasId_def stored_abc_def)
  have front: "getProp (JObj (mergePatch stored_abc (JObj [(lit ''front'', JStr [])]))) (lit ''front'')
      = JStr []"
    by (simp add: mergePatch_def map_of_spread)
  have tok: "secret \<noteq> []" by (simp add: secret_def)
  have auth: "req_auth (request_with ''abc'' (JObj [(lit ''front'', JStr [])]))
      = Some (lit ''Bearer '' @ secret)"
    by (simp add: request_with_def secret_def)
  have fl: "w_file store_world = Some store_text" by (simp add: store_world_def)
  have parse: "JSON_parse example_runtime store_text = Some [stored_abc]"
    by (simp add: example_runtime_def store_text_def)
  have body: "req_body (request_with ''abc'' (JObj [(lit ''front'', JStr [])]))
      = JObj [(lit ''front'', JStr [])]"
    by (simp add: request_with_def)
  have rid: "req_id (request_with ''abc'' (JObj [(lit ''front'', JStr [])])) = lit ''abc''"
    by (simp add: request_with_def)
  have put: "snd (putCard example_runtime secret (request_with ''abc'' (JObj [(lit ''front'', JStr [])]))
        store_world) = Ok_id (lit ''abc'')"
    using enqueueWrite_flag [OF fl parse, of "patchMutator (lit ''abc'') (JObj [(lit ''front'', JStr [])])"]
    by (auto simp: putCard_def guarded_authorized [OF tok auth] body rid prep mut
        split: prod.splits)
  from prep mut front put show ?thesis by (simp del: getProp.simps)
qed

text \<open>
  C3 (as amended). For any card \<open>c\<close> and any patch \<open>p\<close> without an \<^verbatim>\<open>id\<close> field, the card
  the patch merge produces has the id of \<open>c\<close>; and when \<open>p\<close> has no \<^verbatim>\<open>created_at\<close>
  field, it has the \<^verbatim>\<open>created_at\<close> of \<open>c\<close>. A \<^verbatim>\<open>created_at\<close> the patch supplies is taken
  over like any other field: the merge is a plain spread.
\<close>

theorem merge_preserves_identity:
  "(map_of (ownProps p) (lit ''id'') = None \<longrightarrow>
      getProp (JObj (mergePatch c p)) (lit ''id'') = getProp (JObj c) (lit ''id''))
   \<and> (map_of (ownProps p) (lit ''created_at'') = None \<longrightarrow>
      getProp (JObj (mergePatch c p)) (lit ''created_at'') = getProp (JObj c) (lit ''created_at''))"
  by (simp add: mergePatch_def map_of_spread)

theorem merge_preserves_identity_witness:
  "map_of (ownProps (JObj [(lit ''interval'', JNum num_3)])) (lit ''id'') = None
   \<and> getProp (JObj (mergePatch stored_abc (JObj [(lit ''interval'', JNum num_3)]))) (lit ''id'')
       = JStr (lit ''abc'')
   \<and> map_of (ownProps (JObj [(lit ''interval'', JNum num_3)])) (lit ''created_at'') = None
   \<and> getProp (JObj (mergePatch stored_abc (JObj [(lit ''interval'', JNum num_3)]))) (lit ''created_at'')
       = JStr (lit ''2024-01-01T00:00:00.000Z'')"
  using merge_preserves_identity [of "JObj [(lit ''interval'', JNum num_3)]" stored_abc]
  by (simp add: stored_abc_def)

text \<open>
  C3 as stated fails: a patch without an \<^verbatim>\<open>id\<close> field that carries \<^verbatim>\<open>created_at\<close> changes the
  creation time of the card.
\<close>

theorem merge_overwrites_created_at:
  "map_of (ownProps (JObj [(lit ''created_at'', JStr (lit ''1999-12-31T00:00:00.000Z''))])) (lit ''id'') = None
   \<and> getProp (JObj (mergePatch stored_abc
          (JObj [(lit ''created_at'', JStr (lit ''1999-12-31T00:00:00.000Z''))]))) (lit ''created_at'')
       \<noteq> getProp (JObj stored_abc) (lit ''created_at'')"
  by (simp add: mergePatch_def map_of_spread stored_abc_def)

text \<open>
  C4 (as amended). For every input that \<open>sanitizeCard\<close> accepts, sanitizing the resulting
  card again yields an equal card, the id included, provided the card's front and back are
  in normal form already: neither begins with \<^verbatim>\<open>=\<close>, and the back has no white space around
  it (the front never has). The time and the generated id of the first call are not empty,
  as \<^verbatim>\<open>toISOString\<close> and \<^verbatim>\<open>nanoid\<close> never return the empty string.
\<close>

theorem sanitize_is_idempotent_on_normal_cards:
  assumes "sanitizeCard rt now1 fresh1 x = Inr (Some c)"
    and "now1 \<noteq> []" and "fresh1 \<noteq> []"
    and "getProp (JObj c) (lit ''front'') = JStr f" and "\<not> beginsWithEq f"
    and "getProp (JObj c) (lit ''back'') = JStr b" and "\<not> beginsWithEq b" and "trim b = b"
  shows "sanitizeCard rt now2 fresh2 (JObj c) = Inr (Some c)"
proof -
  from assms(1) obtain s b0 where
    ne: "trim (stripLeadingEq s) = [] \<or> b0 = [] \<Longrightarrow> Some c = None" and
    some: "trim (stripLeadingEq s) \<noteq> [] \<Longrightarrow> b0 \<noteq> [] \<Longrightarrow>
           \<exists>e i l. Some c = Some (cardFields x now1 fresh1 (trim (stripLeadingEq s)) b0 e i l)"
    by (rule sanitizeCard_returns) blast
  from ne have f0: "trim (stripLeadingEq s) \<noteq> []" and b0: "b0 \<noteq> []" by auto
  from some [OF f0 b0] obtain e i l where
    c: "c = cardFields x now1 fresh1 (trim (stripLeadingEq s)) b0 e i l" by auto
  from c assms(4) have f: "f = trim (stripLeadingEq s)" by (simp add: cardFields_def)
  from c assms(6) have b: "b = b0" by (simp add: cardFields_def)
  have tf: "trim (stripLeadingEq f) = f"
    using assms(5) by (simp add: stripLeadingEq_id f trim_trim)
  have tb: "trim (stripLeadingEq b) = b"
    using assms(7,8) by (simp add: stripLeadingEq_id)
  have fne: "f \<noteq> []" using f0 f by simp
  have bne: "b \<noteq> []" using b0 b by simp
  have c': "c = cardFields x now1 fresh1 f b e i l" using c f b by simp
  have "sanitizeCard rt now2 fresh2 (JObj (cardFields x now1 fresh1 f b e i l))
       = Inr (Some (cardFields (JObj (cardFields x now1 fresh1 f b e i l)) now2 fresh2 f b e i l))"
    by (rule sanitizeCard_cardFields [OF fne bne tf tb])
  then have "sanitizeCard rt now2 fresh2 (JObj (cardFields x now1 fresh1 f b e i l))
       = Inr (Some (cardFields x now1 fresh1 f b e i l))"
    by (simp only: cardFields_again [OF assms(2,3)])
  then show ?thesis by (simp only: c')
qed

theorem sanitize_is_idempotent_on_normal_cards_witness:
  "sanitizeCard example_runtime (lit ''2025-06-01T12:00:00.000Z'') (lit ''k3v9x0q2m1za'') casa_raw
     = Inr (Some casa_card)
   \<and> sanitizeCard example_runtime (lit ''2026-01-01T00:00:00.000Z'') (lit ''000000000000'') (JObj casa_card)
     = Inr (Some casa_card)"
proof -
  have first: "sanitizeCard example_runtime (lit ''2025-06-01T12:00:00.000Z'') (lit ''k3v9x0q2m1za'')
      casa_raw = Inr (Some casa_card)"
    by (simp add: eval_defs casa_raw_def casa_card_def example_runtime_def lit_def)
  have fr: "getProp (JObj casa_card) (lit ''front'') = JStr (lit ''casa'')"
    by (simp add: casa_card_def)
  have bk: "getProp (JObj casa_card) (lit ''back'') = JStr (lit ''Haus'')"
    by (simp add: casa_card_def)
  have nf: "\<not> beginsWithEq (lit ''casa'')" by (simp add: beginsWithEq_def isEq_def lit_def)
  have nb: "\<not> beginsWithEq (lit ''Haus'')" by (simp add: beginsWithEq_def isEq_def lit_def)
  have tb: "trim (lit ''Haus'') = lit ''Haus''" by (simp add: trim_def isWhiteSpace_def lit_def)
  have t: "lit ''2025-06-01T12:00:00.000Z'' \<noteq> []" by simp
  have i: "lit ''k3v9x0q2m1za'' \<noteq> []" by simp
  from sanitize_is_idempotent_on_normal_cards [OF first t i fr nf bk nb tb] first
  show ?thesis by simp
qed

text \<open>
  C4 as stated fails: the pattern removes one run of \<^verbatim>\<open>=\<close> only. The front \<^verbatim>\<open>"= ="\<close> is
  accepted and stored as \<^verbatim>\<open>"="\<close>; sanitizing that card again strips it to the empty text
  and returns null rather than an equal card.
\<close>

theorem resanitizing_can_reject:
  "sanitizeCard example_runtime (lit ''2025-06-01T12:00:00.000Z'') (lit ''k3v9x0q2m1za'') (JObj two_runs)
     = Inr (Some (cardFields (JObj two_runs) (lit ''2025-06-01T12:00:00.000Z'') (lit ''k3v9x0q2m1za'')
                    (lit ''='') (lit ''b'') num_2_5 num_0 num_0))
   \<and> sanitizeCard example_runtime (lit ''2026-01-01T00:00:00.000Z'') (lit ''000000000000'')
        (JObj (cardFields (JObj two_runs) (lit ''2025-06-01T12:00:00.000Z'') (lit ''k3v9x0q2m1za'')
                    (lit ''='') (lit ''b'') num_2_5 num_0 num_0))
     = Inr None"
proof -
  have "sanitizeCard example_runtime (lit ''2025-06-01T12:00:00.000Z'') (lit ''k3v9x0q2m1za'')
        (JObj two_runs)
     = Inr (Some (cardFields (JObj two_runs) (lit ''2025-06-01T12:00:00.000Z'') (lit ''k3v9x0q2m1za'')
                    (lit ''='') (lit ''b'') num_2_5 num_0 num_0))"
    by (simp add: eval_defs two_runs_def example_runtime_def lit_def)
  moreover have "sanitizeCard example_runtime (lit ''2026-01-01T00:00:00.000Z'') (lit ''000000000000'')
        (JObj (cardFields (JObj two_runs) (lit ''2025-06-01T12:00:00.000Z'') (lit ''k3v9x0q2m1za'')
                    (lit ''='') (lit ''b'') num_2_5 num_0 num_0))
     = Inr None"
    by (simp add: eval_defs two_runs_def example_runtime_def lit_def)
  ultimately show ?thesis by simp
qed

text \<open>
  C6 (as amended). When \<open>sanitizeCard\<close> returns on an input object: \<^verbatim>\<open>front\<close> is taken from
  \<^verbatim>\<open>front\<close> or the legacy \<^verbatim>\<open>portuguese\<close> alias and \<^verbatim>\<open>back\<close> from \<^verbatim>\<open>back\<close> or the legacy
  \<^verbatim>\<open>translation\<close> alias; a leading run of \<^verbatim>\<open>=\<close> and the surrounding white space are
  stripped from the front, and from a back that is not a sequence; a back given as a sequence
  is the join of its elements with \<^verbatim>\<open>" / "\<close>, taken as it is; and the result is null
  exactly when one of the two texts is empty.
\<close>

theorem sanitize_normalizes_text:
  assumes "sanitizeCard rt now fresh (JObj ps) = Inr r"
  shows "(r = None \<longleftrightarrow> spec_front rt ps = [] \<or> spec_back rt ps = [])
       \<and> (case r of
            None \<Rightarrow> True
          | Some c \<Rightarrow> getProp (JObj c) (lit ''front'') = JStr (spec_front rt ps)
                    \<and> getProp (JObj c) (lit ''back'') = JStr (spec_back rt ps))"
proof -
  from assms obtain s b where
    s: "js_String rt (frontIn (JObj ps)) = Inr s" and
    b: "backText rt (backIn (JObj ps)) = Inr b" and
    none: "trim (stripLeadingEq s) = [] \<or> b = [] \<Longrightarrow> r = None" and
    some: "trim (stripLeadingEq s) \<noteq> [] \<Longrightarrow> b \<noteq> [] \<Longrightarrow>
           \<exists>e i l. r = Some (cardFields (JObj ps) now fresh (trim (stripLeadingEq s)) b e i l)"
    by (rule sanitizeCard_returns) blast
  from s have "s = toStr (NumberToString rt) (spec_pick ps ''front'' ''portuguese'')"
    by (simp add: js_String_def frontIn_spec split: if_splits)
  then have fr: "trim (stripLeadingEq s) = spec_front rt ps"
    by (simp add: trim_spec spec_front_def)
  from b have "backText rt (spec_pick ps ''back'' ''translation'') = Inr b"
    by (simp only: backIn_spec)
  from backText_spec [OF this] have bk: "b = spec_back rt ps"
    by (simp add: spec_back_def split: jsval.splits)
  show ?thesis
  proof (cases "spec_front rt ps = [] \<or> spec_back rt ps = []")
    case True
    with none fr bk show ?thesis by auto
  next
    case False
    with some fr bk obtain e i l where
      "r = Some (cardFields (JObj ps) now fresh (spec_front rt ps) (spec_back rt ps) e i l)"
      by auto
    with False show ?thesis by (simp add: cardFields_def)
  qed
qed

theorem sanitize_normalizes_text_witness:
  "sanitizeCard example_runtime (lit ''2025-06-01T12:00:00.000Z'') (lit ''k3v9x0q2m1za'') (JObj scenario_E)
     = Inr (Some (cardFields (JObj scenario_E) (lit ''2025-06-01T12:00:00.000Z'') (lit ''k3v9x0q2m1za'')
                    (lit ''foo'') (lit ''a / b'') num_2_5 num_0 num_0))
   \<and> spec_front example_runtime scenario_E = lit ''foo''
   \<and> spec_back example_runtime scenario_E = lit ''a / b''
   \<and> getProp (JObj (cardFields (JObj scenario_E) (lit ''2025-06-01T12:00:00.000Z'') (lit ''k3v9x0q2m1za'')
                    (lit ''foo'') (lit ''a / b'') num_2_5 num_0 num_0)) (lit ''front'')
       = JStr (lit ''foo'')
   \<and> getProp (JObj (cardFields (JObj scenario_E) (lit ''2025-06-01T12:00:00.000Z'') (lit ''k3v9x0q2m1za'')
                    (lit ''foo'') (lit ''a / b'') num_2_5 num_0 num_0)) (lit ''back'')
       = JStr (lit ''a / b'')
   \<and> sanitizeCard example_runtime (lit ''2025-06-01T12:00:00.000Z'') (lit ''k3v9x0q2m1za'') (JObj scenario_D)
     = Inr None
   \<and> spec_front example_runtime scenario_D = []"
proof -
  have e: "sanitizeCard example_runtime (lit ''2025-06-01T12:00:00.000Z'') (lit ''k3v9x0q2m1za'')
        (JObj scenario_E)
     = Inr (Some (cardFields (JObj scenario_E) (lit ''2025-06-01T12:00:00.000Z'') (lit ''k3v9x0q2m1za'')
                    (lit ''foo'') (lit ''a / b'') num_2_5 num_0 num_0))"
    by (simp add: eval_defs scenario_E_def example_runtime_def lit_def)
  have d: "sanitizeCard example_runtime (lit ''2025-06-01T12:00:00.000Z'') (lit ''k3v9x0q2m1za'')
        (JObj scenario_D) = Inr None"
    by (simp add: eval_defs scenario_D_def example_runtime_def lit_def)
  have fe: "spec_front example_runtime scenario_E = lit ''foo''"
    by (simp add: spec_front_def spec_pick_def spec_present_def spec_strip_def scenario_E_def
        isEq_def isWhiteSpace_def lit_def)
  have be: "spec_back example_runtime scenario_E = lit ''a / b''"
    by (simp add: spec_back_def spec_pick_def spec_present_def spec_strip_def scenario_E_def lit_def)
  have fd: "spec_front example_runtime scenario_D = []"
    by (simp add: spec_front_def spec_pick_def spec_present_def spec_strip_def scenario_D_def)
  from sanitize_normalizes_text [OF e] sanitize_normalizes_text [OF d] e d fe be fd
  show ?thesis by (simp del: getProp.simps)
qed

text \<open>
  C6 as stated fails on a sequence: the joined back keeps its leading \<^verbatim>\<open>=\<close>, where the claim
  has it stripped from both front and back.
\<close>

theorem joined_back_is_not_stripped:
  "sanitizeCard example_runtime (lit ''2025-06-01T12:00:00.000Z'') (lit ''k3v9x0q2m1za'')
        (JObj eq_in_sequence)
     = Inr (Some (cardFields (JObj eq_in_sequence) (lit ''2025-06-01T12:00:00.000Z'')
                    (lit ''k3v9x0q2m1za'') (lit ''a'') (lit ''=b'') num_2_5 num_0 num_0))
   \<and> getProp (JObj (cardFields (JObj eq_in_sequence) (lit ''2025-06-01T12:00:00.000Z'')
                    (lit ''k3v9x0q2m1za'') (lit ''a'') (lit ''=b'') num_2_5 num_0 num_0)) (lit ''back'')
       = JStr (lit ''=b'')
   \<and> spec_back_claimed example_runtime eq_in_sequence = lit ''b''
   \<and> lit ''=b'' \<noteq> lit ''b''"
proof -
  have "sanitizeCard example_runtime (lit ''2025-06-01T12:00:00.000Z'') (lit ''k3v9x0q2m1za'')
        (JObj eq_in_sequence)
     = Inr (Some (cardFields (JObj eq_in_sequence) (lit ''2025-06-01T12:00:00.000Z'')
                    (lit ''k3v9x0q2m1za'') (lit ''a'') (lit ''=b'') num_2_5 num_0 num_0))"
    by (simp add: eval_defs eq_in_sequence_def example_runtime_def lit_def)
  moreover have "spec_back_claimed example_runtime eq_in_sequence = lit ''b''"
    by (simp add: spec_back_claimed_def spec_pick_def spec_present_def spec_strip_def
        eq_in_sequence_def isEq_def isWhiteSpace_def lit_def)
  ultimately show ?thesis by (simp add: cardFields_def)
qed

text \<open>
  C7 says that an upsert of an item whose id an existing card has replaces that card and
  leaves the length unchanged. Within one batch the code does not: the index is built once,
  before the loop, and a push does not enter it. Here a batch brings the new id \<^verbatim>\<open>dup\<close>
  twice; when the second item is upserted the collection already holds the card of the
  first, yet the second is appended, and the store ends with two cards of one id.
\<close>

theorem batch_repeating_a_new_id_stores_it_twice:
  "sanitizeAll example_runtime (\<lambda>i. lit ''2025-06-01T12:00:00.000Z'') (\<lambda>i. lit ''k3v9x0q2m1za'')
       [dup_raw_1, dup_raw_2] = Inr [dup_first, dup_second]
   \<and> sameId dup_first dup_second
   \<and> fst (upsertMutator [dup_first, dup_second] [stored_abc]) = [stored_abc, dup_first, dup_second]
   \<and> upsertStep (cardIndex [stored_abc]) dup_second [stored_abc, dup_first]
       = [stored_abc, dup_first, dup_second]
   \<and> map (\<lambda>c. getProp (JObj c) (lit ''id'')) (fst (upsertMutator [dup_first, dup_second] [stored_abc]))
       = [JStr (lit ''abc''), JStr (lit ''dup''), JStr (lit ''dup'')]"
proof -
  have s1: "sanitizeCard example_runtime (lit ''2025-06-01T12:00:00.000Z'') (lit ''k3v9x0q2m1za'')
      dup_raw_1 = Inr (Some dup_first)"
    by (simp add: eval_defs dup_raw_1_def dup_first_def example_runtime_def lit_def)
  have s2: "sanitizeCard example_runtime (lit ''2025-06-01T12:00:00.000Z'') (lit ''k3v9x0q2m1za'')
      dup_raw_2 = Inr (Some dup_second)"
    by (simp add: eval_defs dup_raw_2_def dup_second_def example_runtime_def lit_def)
  have all: "sanitizeAll example_runtime (\<lambda>i. lit ''2025-06-01T12:00:00.000Z'')
      (\<lambda>i. lit ''k3v9x0q2m1za'') [dup_raw_1, dup_raw_2] = Inr [dup_first, dup_second]"
    by (simp add: sanitizeAll_def bindE_def s1 s2)
  have id1: "getProp (JObj dup_first) (lit ''id'') = JStr (lit ''dup'')"
    by (simp add: dup_first_def dup_raw_1_def cardFields_def or_else_def)
  have id2: "getProp (JObj dup_second) (lit ''id'') = JStr (lit ''dup'')"
    by (simp add: dup_second_def dup_raw_2_def cardFields_def or_else_def)
  have id0: "getProp (JObj stored_abc) (lit ''id'') = JStr (lit ''abc'')"
    by (simp add: stored_abc_def)
  have same: "sameId dup_first dup_second"
    by (simp only: sameId_def id1 id2 sameValueZero.simps)
  have idx: "cardIndex [stored_abc] = [(JStr (lit ''abc''), 0)]"
    by (simp add: cardIndex_def new_Map_def id0 del: getProp.simps)
  have step: "upsertStep (cardIndex [stored_abc]) dup_second [stored_abc, dup_first]
      = [stored_abc, dup_first, dup_second]"
    by (simp add: upsertStep_def idx id2 del: getProp.simps)
  have mut: "fst (upsertMutator [dup_first, dup_second] [stored_abc])
      = [stored_abc, dup_first, dup_second]"
    by (simp add: upsertMutator_def upsertStep_def idx id1 id2 del: getProp.simps)
  from all same step mut id0 id1 id2 show ?thesis
    by (simp del: getProp.simps)
qed




text \<open>
  C9 (as amended). For every collection and every id that no card of it has, the mutators of
  \<^verbatim>\<open>PUT\<close> and \<^verbatim>\<open>DELETE\<close> return the collection unchanged, \<^verbatim>\<open>DELETE\<close> answers not-found, and
  \<^verbatim>\<open>PUT\<close> answers not-found when the \<^verbatim>\<open>front\<close> and \<^verbatim>\<open>back\<close> of its patch convert to
  strings; when a card has the id, \<^verbatim>\<open>DELETE\<close> answers removed and \<^verbatim>\<open>PUT\<close>, on the same
  condition, updated. A patch whose \<^verbatim>\<open>front\<close> or \<^verbatim>\<open>back\<close> does not convert makes the handler
  of \<^verbatim>\<open>PUT\<close> throw before it enqueues its mutator, whether a card has the id or not. The
  request is authorized and the store file parses to the collection.
\<close>

theorem not_found_leaves_the_collection_unchanged:
  assumes "wt \<noteq> []" and "req_auth req = Some (lit ''Bearer '' @ wt)"
    and "w_file w = Some txt" and "JSON_parse rt txt = Some cards"
  shows "((\<forall>c \<in> set cards. \<not> hasId (req_id req) c) \<longrightarrow>
            patchMutator (req_id req) patch cards = (cards, False)
          \<and> deleteMutator (req_id req) cards = (cards, False)
          \<and> snd (deleteCard rt wt req w) = Not_found
          \<and> snd (putCard rt wt req w) =
              (case preparePatch rt (req_body req) of Inl e \<Rightarrow> Rejected e | Inr p \<Rightarrow> Not_found))
       \<and> ((\<exists>c \<in> set cards. hasId (req_id req) c) \<longrightarrow>
            snd (deleteCard rt wt req w) = Ok_id (req_id req)
          \<and> snd (putCard rt wt req w) =
              (case preparePatch rt (req_body req) of
                 Inl e \<Rightarrow> Rejected e
               | Inr p \<Rightarrow> Ok_id (req_id req)))"
proof -
  have put: "snd (putCard rt wt req w) =
      (case preparePatch rt (req_body req) of
         Inl e \<Rightarrow> Rejected e
       | Inr p \<Rightarrow> if snd (patchMutator (req_id req) p cards) then Ok_id (req_id req) else Not_found)"
  proof (cases "preparePatch rt (req_body req)")
    case (Inl e)
    then show ?thesis
      by (simp add: putCard_def guarded_authorized [OF assms(1,2)])
  next
    case (Inr p)
    with enqueueWrite_flag [OF assms(3,4), of "patchMutator (req_id req) p"] show ?thesis
      by (auto simp: putCard_def guarded_authorized [OF assms(1,2)] split: prod.splits)
  qed
  have del: "snd (deleteCard rt wt req w) =
      (if snd (deleteMutator (req_id req) cards) then Ok_id (req_id req) else Not_found)"
    using enqueueWrite_flag [OF assms(3,4), of "deleteMutator (req_id req)"]
    by (auto simp: deleteCard_def guarded_authorized [OF assms(1,2)] split: prod.splits)
  show ?thesis
  proof (intro conjI impI)
    assume a: "\<forall>c \<in> set cards. \<not> hasId (req_id req) c"
    show "patchMutator (req_id req) patch cards = (cards, False)" by (rule patch_absent [OF a])
    show "deleteMutator (req_id req) cards = (cards, False)" by (rule delete_absent [OF a])
    show "snd (deleteCard rt wt req w) = Not_found" by (simp add: del delete_absent [OF a])
    show "snd (putCard rt wt req w) =
        (case preparePatch rt (req_body req) of Inl e \<Rightarrow> Rejected e | Inr p \<Rightarrow> Not_found)"
      by (simp add: put patch_absent [OF a] split: sum.splits)
  next
    assume p: "\<exists>c \<in> set cards. hasId (req_id req) c"
    show "snd (deleteCard rt wt req w) = Ok_id (req_id req)" by (simp add: del delete_present [OF p])
    show "snd (putCard rt wt req w) =
        (case preparePatch rt (req_body req) of
           Inl e \<Rightarrow> Rejected e
         | Inr p \<Rightarrow> Ok_id (req_id req))"
      by (simp add: put patch_present [OF p] split: sum.splits)
  qed
qed

theorem not_found_leaves_the_collection_unchanged_witness:
  "\<not> hasId (lit ''zzz'') stored_abc
   \<and> patchMutator (lit ''zzz'') (JObj [(lit ''interval'', JNum num_3)]) [stored_abc]
       = ([stored_abc], False)
   \<and> deleteMutator (lit ''zzz'') [stored_abc] = ([stored_abc], False)
   \<and> snd (putCard example_runtime secret
            (request_with ''zzz'' (JObj [(lit ''interval'', JNum num_3)])) store_world) = Not_found
   \<and> snd (deleteCard example_runtime secret
            (request_with ''zzz'' (JObj [(lit ''interval'', JNum num_3)])) store_world) = Not_found
   \<and> (\<exists>c \<in> set [stored_abc]. hasId (lit ''abc'') c)
   \<and> snd (putCard example_runtime secret
            (request_with ''abc'' (JObj [(lit ''interval'', JNum num_3)])) store_world)
       = Ok_id (lit ''abc'')
   \<and> snd (deleteCard example_runtime secret
            (request_with ''abc'' (JObj [(lit ''interval'', JNum num_3)])) store_world)
       = Ok_id (lit ''abc'')"
proof -
  let ?p = "JObj [(lit ''interval'', JNum num_3)]"
  have tok: "secret \<noteq> []" by (simp add: secret_def)
  have auth: "req_auth (request_with cid ?p) = Some (lit ''Bearer '' @ secret)" for cid
    by (simp add: request_with_def secret_def)
  have fl: "w_file store_world = Some store_text" by (simp add: store_world_def)
  have parse: "JSON_parse example_runtime store_text = Some [stored_abc]"
    by (simp add: example_runtime_def store_text_def)
  have prep: "preparePatch example_runtime (req_body (request_with cid ?p)) = Inr ?p" for cid
    by (simp add: request_with_def preparePatch_def or_else_def bindE_def)
  have absent: "\<forall>c \<in> set [stored_abc]. \<not> hasId (lit ''zzz'') c"
    by (simp add: hasId_def stored_abc_def)
  have present: "\<exists>c \<in> set [stored_abc]. hasId (lit ''abc'') c"
    by (simp add: hasId_def stored_abc_def)
  have ids: "req_id (request_with cid ?p) = lit cid" for cid
    by (simp add: request_with_def)
  from not_found_leaves_the_collection_unchanged [OF tok auth fl parse, of "''zzz''" ?p]
       not_found_leaves_the_collection_unchanged [OF tok auth fl parse, of "''abc''" ?p]
       absent present
  show ?thesis by (simp only: ids prep sum.case) simp
qed

text \<open>
  C9 as stated fails: a \<^verbatim>\<open>PUT\<close> for an id that no card has, with a patch whose \<^verbatim>\<open>front\<close>
  does not convert to a string, does not answer not-found; its handler throws a TypeError.
\<close>

theorem put_on_absent_id_can_throw:
  "\<not> hasId (lit ''zzz'') stored_abc
   \<and> w_file store_world = Some store_text
   \<and> JSON_parse example_runtime store_text = Some [stored_abc]
   \<and> preparePatch example_runtime unconvertible_patch = Inl TypeError
   \<and> putCard example_runtime secret (request_with ''zzz'' unconvertible_patch) store_world
       = (store_world, Rejected TypeError)"
proof -
  have tok: "secret \<noteq> []" by (simp add: secret_def)
  have auth: "req_auth (request_with ''zzz'' unconvertible_patch) = Some (lit ''Bearer '' @ secret)"
    by (simp add: request_with_def secret_def)
  have body: "req_body (request_with ''zzz'' unconvertible_patch) = unconvertible_patch"
    by (simp add: request_with_def)
  have prep: "preparePatch example_runtime unconvertible_patch = Inl TypeError"
    by (simp add: unconvertible_patch_def preparePatch_def or_else_def bindE_def js_String_def)
  have put: "putCard example_runtime secret (request_with ''zzz'' unconvertible_patch) store_world
       = (store_world, Rejected TypeError)"
    by (simp add: putCard_def guarded_authorized [OF tok auth] body prep)
  have absent: "\<not> hasId (lit ''zzz'') stored_abc"
    by (simp add: hasId_def stored_abc_def)
  have parse: "JSON_parse example_runtime store_text = Some [stored_abc]"
    by (simp add: example_runtime_def store_text_def)
  from absent parse prep put show ?thesis by (simp add: store_world_def)
qed

text \<open>
  C10. When the write secret is not configured or is the empty string, every \<^verbatim>\<open>POST\<close>,
  \<^verbatim>\<open>PUT\<close> and \<^verbatim>\<open>DELETE\<close> is answered 401 unauthorized and the store is left as it was,
  whatever the Authorization header, a bearer token equal to the empty secret included.
\<close>

theorem unconfigured_server_is_read_only:
  assumes "env = None \<or> env = Some []"
  shows "postCards rt (WRITE_TOKEN env) clock ids req w = (w, Unauthorized)
       \<and> putCard rt (WRITE_TOKEN env) req w = (w, Unauthorized)
       \<and> deleteCard rt (WRITE_TOKEN env) req w = (w, Unauthorized)"
proof -
  from assms have "WRITE_TOKEN env = []"
    by (auto simp: WRITE_TOKEN_def)
  then have "requireToken (WRITE_TOKEN env) h = None" for h
    by (simp add: requireToken_def Let_def)
  then show ?thesis
    by (simp add: postCards_def putCard_def deleteCard_def guarded_def)
qed

theorem unconfigured_server_is_read_only_witness:
  "(Some [] = (None :: jsstring option) \<or> Some ([] :: jsstring) = Some [])
   \<and> postCards example_runtime (WRITE_TOKEN (Some [])) (\<lambda>i. lit ''2024-01-02T00:00:00.000Z'')
        (\<lambda>i. lit ''k3v9x0q2m1za'')
        \<lparr>req_auth = Some (lit ''Bearer ''), req_id = lit ''abc'', req_body = JObj stored_abc\<rparr>
        store_world = (store_world, Unauthorized)
   \<and> putCard example_runtime (WRITE_TOKEN (Some []))
        \<lparr>req_auth = Some (lit ''Bearer ''), req_id = lit ''abc'', req_body = JObj stored_abc\<rparr>
        store_world = (store_world, Unauthorized)
   \<and> deleteCard example_runtime (WRITE_TOKEN (Some []))
        \<lparr>req_auth = Some (lit ''Bearer ''), req_id = lit ''abc'', req_body = JObj stored_abc\<rparr>
        store_world = (store_world, Unauthorized)"
  using unconfigured_server_is_read_only [of "Some []" example_runtime
      "\<lambda>i. lit ''2024-01-02T00:00:00.000Z''" "\<lambda>i. lit ''k3v9x0q2m1za''"
      "\<lparr>req_auth = Some (lit ''Bearer ''), req_id = lit ''abc'', req_body = JObj stored_abc\<rparr>"
      store_world]
  by simp

end
